theory Spec2Isabelle
  imports Main "HOL-Library.Sublist"
begin

section \<open>The native inference session of llm-hub-jni.cpp\<close>

text \<open>
  The file under verification is \<^verbatim>\<open>app/src/main/cpp/llm-hub-jni.cpp\<close>: three JNI entry
  points (\<^verbatim>\<open>initLlama\<close>, \<^verbatim>\<open>generateResponse\<close>, \<^verbatim>\<open>releaseLlama\<close>) over three
  process-wide handles. The llama.cpp library and the JNI environment are external to
  the file; they enter the model as the fields of one record of functions, one field per
  external call the file makes, so that every theorem holds for any library behaviour.
\<close>

subsection \<open>External collaborators\<close>

type_synonym llama_token = int

text \<open>The sampler chain built by \<^verbatim>\<open>generateResponse\<close> holds one stage, the greedy one.\<close>

datatype llama_sampler = Greedy

text \<open>
  \<open>'m\<close>, \<open>'v\<close> and \<open>'k\<close> are the library's model, vocabulary and context objects. A call
  that returns a pointer returns an \<open>option\<close> (\<open>None\<close> is \<^verbatim>\<open>nullptr\<close>). A call that fills a
  caller's buffer returns its \<^verbatim>\<open>int\<close> result together with the elements it stored from
  the start of the buffer. \<open>llama_decode\<close> returns its status and the context as the call
  left it. The sampler reads the logits of the context, so it is a function of the chain
  and the context. The two JNI lookups of the streaming callback say whether the class
  and the static method resolve.
\<close>

record ('m, 'v, 'k) env =
  llama_model_load_from_file :: "string \<Rightarrow> int \<Rightarrow> 'm option"
  llama_model_get_vocab :: "'m \<Rightarrow> 'v"
  llama_init_from_model :: "'m \<Rightarrow> nat \<Rightarrow> nat \<Rightarrow> 'k option"
  hardware_concurrency :: nat
  llama_set_n_threads :: "'k \<Rightarrow> nat \<Rightarrow> nat \<Rightarrow> 'k"
  llama_tokenize :: "'v \<Rightarrow> string \<Rightarrow> nat \<Rightarrow> int \<times> llama_token list"
  llama_decode :: "'k \<Rightarrow> llama_token list \<Rightarrow> int \<times> 'k"
  llama_sampler_sample :: "llama_sampler list \<Rightarrow> 'k \<Rightarrow> llama_token"
  llama_vocab_is_eog :: "'v \<Rightarrow> llama_token \<Rightarrow> bool"
  llama_token_to_piece :: "'v \<Rightarrow> llama_token \<Rightarrow> nat \<Rightarrow> int \<times> string"
  FindClass :: "string \<Rightarrow> bool"
  GetStaticMethodID :: "string \<Rightarrow> string \<Rightarrow> string \<Rightarrow> bool"

subsection \<open>Session state and observable calls\<close>

text \<open>
  The three statics of the file, and whether the library's process-wide backend is up
  (\<^verbatim>\<open>llama_backend_init\<close> raises it, \<^verbatim>\<open>llama_backend_free\<close> drops it). \<open>g_ctx\<close> holds the
  context object itself: the file has one pointer to it and \<open>llama_decode\<close> updates it
  in place.
\<close>

record ('m, 'v, 'k) session =
  g_model :: "'m option"
  g_vocab :: "'v option"
  g_ctx :: "'k option"
  backend_up :: bool

definition uninitialized :: "('m, 'v, 'k) session" where
  "uninitialized = \<lparr>g_model = None, g_vocab = None, g_ctx = None, backend_up = False\<rparr>"

text \<open>The resource calls of \<^verbatim>\<open>initLlama\<close> and \<^verbatim>\<open>releaseLlama\<close>, in the order made.\<close>

datatype ('m, 'k) life_event =
    BackendInit
  | ModelFree 'm
  | ContextFree 'k
  | BackendFree

text \<open>
  What one generation does, in the order done: a decode call (position before the call,
  the batch, the status returned), the store \<^verbatim>\<open>buf[n] = 0\<close> (the index), the append of
  a fragment to \<^verbatim>\<open>result\<close>, and a delivery to \<^verbatim>\<open>onNativeToken\<close>. Two more events mark
  where the file leaves defined ground. \<open>ExceptionPending\<close>: a JNI lookup of the callback
  failed, which leaves a Java exception pending that the file never clears; the model
  goes on through the file's own branches, and what the virtual machine does with the
  exception is not modelled. \<open>SignedOverflow\<close>: the negation of line 90 overflowed, which
  is undefined behaviour; a result that holds this event says nothing about the call.
\<close>

datatype gen_event =
    Decode int "llama_token list" int
  | BufStore int
  | Append string
  | Sink string
  | ExceptionPending
  | SignedOverflow

subsection \<open>C strings\<close>

text \<open>
  \<^verbatim>\<open>NewStringUTF\<close>, \<^verbatim>\<open>strncmp\<close> and the \<^verbatim>\<open>std::string + const char *\<close> concatenation read
  a byte sequence up to its first NUL byte: \<open>c_str s\<close> is the sequence read.
\<close>

definition c_str :: "string \<Rightarrow> string" where
  "c_str s = takeWhile (\<lambda>c. c \<noteq> CHR 0x00) s"

text \<open>
  \<open>NewStringUTF s\<close> is the C string that a call of \<^verbatim>\<open>NewStringUTF\<close> is handed: the bytes
  JNI reads. The model stops there. JNI decodes these bytes as modified UTF-8 into a
  Java string, call by call, and what it makes of a sequence that is not valid on its
  own (a multi-byte character cut by the end of a fragment) is not modelled. So a text
  returned or delivered is, in every statement below, the bytes handed to JNI; nothing
  is said of the characters of the Java string, and in particular not that decoding
  fragments one by one gives what decoding their concatenation gives.
\<close>

definition NewStringUTF :: "string \<Rightarrow> string" where
  "NewStringUTF s = c_str s"

text \<open>\<^verbatim>\<open>strncmp(a, b, n) == 0\<close>: the two C strings agree on their first \<open>n\<close> bytes.\<close>

definition strncmp_eq0 :: "string \<Rightarrow> string \<Rightarrow> nat \<Rightarrow> bool" where
  "strncmp_eq0 a b n = (take n (c_str a) = take n (c_str b))"

definition stop_marker :: string where
  "stop_marker = ''<end_of_turn>''"

definition sink_class :: string where
  "sink_class = ''com/example/llmhub/inference/LlamaInferenceService''"

definition not_initialized :: string where
  "not_initialized = ''Model not initialized''"

definition tokenization_failed :: string where
  "tokenization_failed = ''Tokenization failed''"

subsection \<open>initLlama\<close>

text \<open>
  Lines 20 to 69. The result is the \<^verbatim>\<open>jint\<close> returned, the session after the call and
  the resource calls made. The file does not look at the handles it overwrites.
\<close>

definition initLlama ::
  "('m, 'v, 'k) env \<Rightarrow> ('m, 'v, 'k) session \<Rightarrow> string
    \<Rightarrow> int \<times> ('m, 'v, 'k) session \<times> ('m, 'k) life_event list" where
  "initLlama E s path =
    (let s1 = s\<lparr>backend_up := True\<rparr>;
         s2 = s1\<lparr>g_model := llama_model_load_from_file E (c_str path) 99\<rparr>
     in case g_model s2 of
          None \<Rightarrow> (- 1, s2, [BackendInit])
        | Some m \<Rightarrow>
            (let s3 = s2\<lparr>g_vocab := Some (llama_model_get_vocab E m)\<rparr>;
                 s4 = s3\<lparr>g_ctx := llama_init_from_model E m 2048 512\<rparr>
             in case g_ctx s4 of
                  None \<Rightarrow> (- 2, s4\<lparr>g_model := None, g_vocab := None\<rparr>,
                            [BackendInit, ModelFree m])
                | Some c \<Rightarrow>
                    (0, s4\<lparr>g_ctx := Some (llama_set_n_threads E c
                               (hardware_concurrency E) (hardware_concurrency E))\<rparr>,
                     [BackendInit])))"

subsection \<open>releaseLlama\<close>

text \<open>Lines 184 to 198.\<close>

definition releaseLlama ::
  "('m, 'v, 'k) session \<Rightarrow> ('m, 'v, 'k) session \<times> ('m, 'k) life_event list" where
  "releaseLlama s =
    (let (s1, ev1) = (case g_ctx s of
                        Some c \<Rightarrow> (s\<lparr>g_ctx := None\<rparr>, [ContextFree c])
                      | None \<Rightarrow> (s, []));
         (s2, ev2) = (case g_model s1 of
                        Some m \<Rightarrow> (s1\<lparr>g_model := None, g_vocab := None\<rparr>, [ModelFree m])
                      | None \<Rightarrow> (s1, []))
     in (s2\<lparr>backend_up := False\<rparr>, ev1 @ ev2 @ [BackendFree]))"

subsection \<open>generateResponse\<close>

text \<open>The dialogue template of lines 84 to 86; the prompt is read as a C string.\<close>

definition full_prompt :: "string \<Rightarrow> string" where
  "full_prompt prompt_chars =
     ''<start_of_turn>user'' @ [CHR 0x0A] @ c_str prompt_chars @ [CHR 0x0A] @
     ''<end_of_turn>'' @ [CHR 0x0A] @ ''<start_of_turn>model'' @ [CHR 0x0A]"

definition n_predict :: int where
  "n_predict = 64"

definition buf_size :: nat where
  "buf_size = 128"

text \<open>The variables the loop of lines 122 to 169 updates, and what it has done so far.\<close>

record 'k gen_state =
  ctx :: 'k
  n_pos :: int
  batch :: "llama_token list"
  result :: string
  events :: "gen_event list"

text \<open>
  The delivery of lines 155 to 164: the callback is called with the fragment read as a
  C string when the class and the method resolve, and not at all otherwise; a lookup
  that fails leaves its exception pending.
\<close>

definition forward_token :: "('m, 'v, 'k) env \<Rightarrow> string \<Rightarrow> gen_event list" where
  "forward_token E buf =
     (if FindClass E sink_class then
        (if GetStaticMethodID E sink_class ''onNativeToken'' ''(Ljava/lang/String;)V''
         then [Sink (NewStringUTF buf)] else [ExceptionPending])
      else [ExceptionPending])"

text \<open>
  One pass through the loop body. The boolean is \<open>False\<close> where the body leaves the loop
  by \<^verbatim>\<open>break\<close>. With \<open>n > 0\<close> the fragment is the first \<open>n\<close> bytes of \<^verbatim>\<open>buf\<close>, which the
  library stored, and \<^verbatim>\<open>buf[n] = 0\<close> ends it as a C string; for \<open>n = 128\<close> that store is
  one past the array, which the \<open>BufStore\<close> event records. The batch of line 168 points
  at \<^verbatim>\<open>token_id\<close>, a local of the loop body that the decode call of the next pass reads;
  the model takes the value the token had.
\<close>

definition gen_step ::
  "('m, 'v, 'k) env \<Rightarrow> 'v \<Rightarrow> 'k gen_state \<Rightarrow> bool \<times> 'k gen_state" where
  "gen_step E v st =
    (case llama_decode E (ctx st) (batch st) of
       (rc, c') \<Rightarrow>
         (let st1 = st\<lparr>ctx := c', events := events st @ [Decode (n_pos st) (batch st) rc]\<rparr>
          in if rc \<noteq> 0 then (False, st1)
             else
               (let st2 = st1\<lparr>n_pos := n_pos st1 + int (length (batch st1))\<rparr>;
                    token_id = llama_sampler_sample E [Greedy] (ctx st2)
                in if llama_vocab_is_eog E v token_id then (False, st2)
                   else
                     (case llama_token_to_piece E v token_id buf_size of
                        (n, stored) \<Rightarrow>
                          if n > 0 then
                            (let buf = take (nat n) stored;
                                 st3 = st2\<lparr>events := events st2 @ [BufStore n]\<rparr>
                             in if strncmp_eq0 buf stop_marker 13 then (False, st3)
                                else (True, st3\<lparr>result := result st3 @ buf,
                                               events := events st3 @ [Append buf]
                                                         @ forward_token E buf,
                                               batch := [token_id]\<rparr>))
                          else (True, st2\<lparr>batch := [token_id]\<rparr>)))))"

function gen_loop ::
  "('m, 'v, 'k) env \<Rightarrow> 'v \<Rightarrow> int \<Rightarrow> 'k gen_state \<Rightarrow> 'k gen_state" where
  "gen_loop E v lim st =
     (if n_pos st + int (length (batch st)) < lim then
        (let r = gen_step E v st
         in if fst r then gen_loop E v lim (snd r) else snd r)
      else st)"
  by pat_completeness auto
termination
proof (relation "measure (\<lambda>(E, v, lim, st). nat (lim - (n_pos st + int (length (batch st)))))")
  show "wf (measure (\<lambda>(E :: ('m, 'v, 'k) env, v :: 'v, lim, st :: 'k gen_state).
              nat (lim - (n_pos st + int (length (batch st))))))"
    by simp
next
  fix E :: "('m, 'v, 'k) env" and v :: 'v and lim :: int and st :: "'k gen_state"
    and r :: "bool \<times> 'k gen_state"
  assume guard: "n_pos st + int (length (batch st)) < lim"
    and r: "r = gen_step E v st" and cont: "fst r"
  have "n_pos (snd r) + int (length (batch (snd r))) = n_pos st + int (length (batch st)) + 1"
    using cont unfolding r gen_step_def
    by (auto simp: Let_def split: prod.splits if_splits)
  with guard show "((E, v, lim, snd r), (E, v, lim, st))
      \<in> measure (\<lambda>(E, v, lim, st). nat (lim - (n_pos st + int (length (batch st)))))"
    by simp
qed

text \<open>
  The library's \<^verbatim>\<open>int\<close> results are 32-bit values. Line 90 negates the result of the
  sizing call; for the least 32-bit value, which the library returns when the number of
  tokens does not fit, the negation overflows and the behaviour of the file is undefined.
\<close>

definition INT32_MIN :: int where
  "INT32_MIN = - 2147483648"

definition negation_overflows :: "int \<Rightarrow> bool" where
  "negation_overflows r = (r = INT32_MIN)"

text \<open>
  The two-phase tokenization of lines 89 to 102, where the negation is defined: \<open>None\<close>
  is the return of \<^verbatim>\<open>"Tokenization failed"\<close>. Where the negation overflows there are no
  prompt tokens either, and \<open>generateResponse\<close> tells the two apart. The vector
  \<^verbatim>\<open>prompt_tokens\<close> has \<open>n_prompt\<close> zeroed elements, over which the second call stores.
  The sums of the loop guard are taken without overflow.
\<close>

definition tokenize_prompt ::
  "('m, 'v, 'k) env \<Rightarrow> 'v \<Rightarrow> string \<Rightarrow> llama_token list option" where
  "tokenize_prompt E v fp =
    (if negation_overflows (fst (llama_tokenize E v fp 0)) then None
     else
       (let n_prompt = - fst (llama_tokenize E v fp 0)
        in if n_prompt \<le> 0 then None
           else
             (case llama_tokenize E v fp (nat n_prompt) of
                (rc, stored) \<Rightarrow>
                  if rc < 0 then None
                  else Some (take (nat n_prompt) (stored @ replicate (nat n_prompt) 0)))))"

text \<open>The loop variables at line 120: the first batch is the whole prompt.\<close>

definition first_state :: "'k \<Rightarrow> llama_token list \<Rightarrow> 'k gen_state" where
  "first_state c prompt_tokens =
     \<lparr>ctx = c, n_pos = 0, batch = prompt_tokens, result = [], events = []\<rparr>"

text \<open>
  Lines 72 to 181. The result is the Java string returned, the session after the call
  and what the generation did. \<open>n_prompt\<close> is the size of \<^verbatim>\<open>prompt_tokens\<close>. The sampler
  chain is built after the tokenization and freed after the loop, on every path that
  built it. The log lines, the timers and the performance report decide nothing and are
  left out. Where the negation of line 90 overflows, the result holds the one event
  \<open>SignedOverflow\<close> and stands for no behaviour of the file.
\<close>

definition generateResponse ::
  "('m, 'v, 'k) env \<Rightarrow> ('m, 'v, 'k) session \<Rightarrow> string
    \<Rightarrow> string \<times> ('m, 'v, 'k) session \<times> gen_event list" where
  "generateResponse E s prompt =
    (case (g_ctx s, g_vocab s) of
       (Some c, Some v) \<Rightarrow>
         if negation_overflows (fst (llama_tokenize E v (full_prompt prompt) 0))
         then ([], s, [SignedOverflow])
         else
           (case tokenize_prompt E v (full_prompt prompt) of
              None \<Rightarrow> (NewStringUTF tokenization_failed, s, [])
            | Some prompt_tokens \<Rightarrow>
                (let n_prompt = int (length prompt_tokens);
                     st = gen_loop E v (n_prompt + n_predict) (first_state c prompt_tokens)
                 in (NewStringUTF (result st), s\<lparr>g_ctx := Some (ctx st)\<rparr>, events st)))
     | _ \<Rightarrow> (NewStringUTF not_initialized, s, []))"

subsection \<open>Call sequences\<close>

datatype op = Init string | Generate string | Release

fun exec :: "('m, 'v, 'k) env \<Rightarrow> ('m, 'v, 'k) session \<Rightarrow> op \<Rightarrow> ('m, 'v, 'k) session" where
  "exec E s (Init path) = fst (snd (initLlama E s path))"
| "exec E s (Generate prompt) = fst (snd (generateResponse E s prompt))"
| "exec E s Release = fst (releaseLlama s)"

definition run :: "('m, 'v, 'k) env \<Rightarrow> ('m, 'v, 'k) session \<Rightarrow> op list \<Rightarrow> ('m, 'v, 'k) session" where
  "run E s ops = foldl (exec E) s ops"

text \<open>No \<open>Init\<close> of the sequence returns 0.\<close>

fun failed_inits :: "('m, 'v, 'k) env \<Rightarrow> ('m, 'v, 'k) session \<Rightarrow> op list \<Rightarrow> bool" where
  "failed_inits E s [] = True"
| "failed_inits E s (Init path # ops) =
     (fst (initLlama E s path) \<noteq> 0 \<and> failed_inits E (exec E s (Init path)) ops)"
| "failed_inits E s (x # ops) = failed_inits E (exec E s x) ops"

text \<open>Every \<open>Init\<close> of the sequence is called on a session that holds no model.\<close>

fun fresh_inits :: "('m, 'v, 'k) env \<Rightarrow> ('m, 'v, 'k) session \<Rightarrow> op list \<Rightarrow> bool" where
  "fresh_inits E s [] = True"
| "fresh_inits E s (Init path # ops) =
     (g_model s = None \<and> fresh_inits E (exec E s (Init path)) ops)"
| "fresh_inits E s (x # ops) = fresh_inits E (exec E s x) ops"

text \<open>The property of the three handles that claim C10 is about.\<close>

definition handle_inv :: "('m, 'v, 'k) session \<Rightarrow> bool" where
  "handle_inv s =
     ((g_ctx s \<noteq> None \<longrightarrow> g_model s \<noteq> None) \<and> (g_vocab s \<noteq> None \<longleftrightarrow> g_model s \<noteq> None))"

subsection \<open>Reading a generation's events\<close>

fun appended :: "gen_event list \<Rightarrow> string list" where
  "appended [] = []"
| "appended (Append f # es) = f # appended es"
| "appended (e # es) = appended es"

fun delivered :: "gen_event list \<Rightarrow> string list" where
  "delivered [] = []"
| "delivered (Sink f # es) = f # delivered es"
| "delivered (e # es) = delivered es"

fun n_decodes :: "gen_event list \<Rightarrow> nat" where
  "n_decodes [] = 0"
| "n_decodes (Decode p b rc # es) = Suc (n_decodes es)"
| "n_decodes (e # es) = n_decodes es"

text \<open>The appends and deliveries of a generation, in the order made.\<close>

fun stream_view :: "gen_event list \<Rightarrow> gen_event list" where
  "stream_view [] = []"
| "stream_view (Append f # es) = Append f # stream_view es"
| "stream_view (Sink f # es) = Sink f # stream_view es"
| "stream_view (e # es) = stream_view es"

text \<open>The events that one pass through the loop body adds.\<close>

definition step_events :: "('m, 'v, 'k) env \<Rightarrow> 'v \<Rightarrow> 'k gen_state \<Rightarrow> gen_event list" where
  "step_events E v st = drop (length (events st)) (events (snd (gen_step E v st)))"



text \<open>Both JNI lookups of the streaming callback resolve.\<close>

definition sink_resolves :: "('m, 'v, 'k) env \<Rightarrow> bool" where
  "sink_resolves E =
     (FindClass E sink_class \<and>
      GetStaticMethodID E sink_class ''onNativeToken'' ''(Ljava/lang/String;)V'')"

text \<open>
  \<open>k\<close> passes through the loop, none of which leaves it: the loop variables after the
  \<open>k\<close>-th pass, or \<open>None\<close> where the loop ends earlier.
\<close>

fun run_steps ::
  "('m, 'v, 'k) env \<Rightarrow> 'v \<Rightarrow> int \<Rightarrow> nat \<Rightarrow> 'k gen_state \<Rightarrow> 'k gen_state option" where
  "run_steps E v lim 0 st = Some st"
| "run_steps E v lim (Suc k) st =
     (if n_pos st + int (length (batch st)) < lim then
        (let r = gen_step E v st
         in if fst r then run_steps E v lim k (snd r) else None)
      else None)"

text \<open>
  Two runs of the library, as two environments, that tokenize, decode, recognise the end
  of generation and turn tokens into pieces alike. Their samplers are left free: what
  one run samples, another need not.
\<close>

definition same_backend :: "('m, 'v, 'k) env \<Rightarrow> ('m, 'v, 'k) env \<Rightarrow> bool" where
  "same_backend E1 E2 =
     (llama_tokenize E1 = llama_tokenize E2 \<and> llama_decode E1 = llama_decode E2 \<and>
      llama_vocab_is_eog E1 = llama_vocab_is_eog E2 \<and>
      llama_token_to_piece E1 = llama_token_to_piece E2)"

text \<open>
  Modelled from the spec: the greedy stage is code of llama.cpp, which the file calls and
  does not hold. The spec (4.5, step 4, and 4.6) gives it as the arg-max over the
  vocabulary logits of the latest position, with no randomness. The logits are values of
  a linear order (a floating-point NaN is not modelled), the token id is the index, the
  first of several equal maxima wins, and an empty vocabulary gives token 0.
\<close>

fun arg_max_from :: "'l::linorder \<Rightarrow> nat \<Rightarrow> nat \<Rightarrow> 'l list \<Rightarrow> nat" where
  "arg_max_from best ibest i [] = ibest"
| "arg_max_from best ibest i (x # xs) =
     (if best < x then arg_max_from x i (Suc i) xs else arg_max_from best ibest (Suc i) xs)"

definition arg_max :: "'l::linorder list \<Rightarrow> llama_token" where
  "arg_max logits = (case logits of [] \<Rightarrow> 0 | x # xs \<Rightarrow> int (arg_max_from x 0 1 xs))"


subsection \<open>A scripted library for concrete runs\<close>

text \<open>
  A library whose context counts the decode calls that succeeded, whose sampler returns
  that count as the token id, and whose token \<open>j\<close> decodes to the \<open>j\<close>-th piece of a
  script; a token beyond the script ends the generation. The tokenizer gives one token
  per byte, decode call number \<open>fail_at\<close> fails, \<^verbatim>\<open>model.gguf\<close> loads and gets a context,
  \<^verbatim>\<open>big.gguf\<close> loads and gets none, and no other path loads.
\<close>

definition stub_env :: "string list \<Rightarrow> nat \<Rightarrow> bool \<Rightarrow> (nat, nat, nat) env" where
  "stub_env pieces fail_at sink_ok =
    \<lparr>llama_model_load_from_file =
       (\<lambda>path ngl. if path = ''model.gguf'' then Some 7
                    else if path = ''big.gguf'' then Some 8 else None),
     llama_model_get_vocab = (\<lambda>m. m),
     llama_init_from_model = (\<lambda>m n_ctx n_batch. if m = 7 then Some 0 else None),
     hardware_concurrency = 4,
     llama_set_n_threads = (\<lambda>c a b. c),
     llama_tokenize =
       (\<lambda>v text cap.
          let toks = map (\<lambda>c. int (of_char c)) text
          in if length toks \<le> cap then (int (length toks), toks)
             else (- int (length toks), [])),
     llama_decode = (\<lambda>c b. if Suc c = fail_at then (1, c) else (0, Suc c)),
     llama_sampler_sample = (\<lambda>chain c. int c),
     llama_vocab_is_eog = (\<lambda>v t. length pieces < nat t),
     llama_token_to_piece =
       (\<lambda>v t cap.
          let p = pieces ! (nat t - 1)
          in if length p \<le> cap then (int (length p), p) else (- int (length p), [])),
     FindClass = (\<lambda>n. sink_ok),
     GetStaticMethodID = (\<lambda>c n sg. sink_ok)\<rparr>"

text \<open>The same library with a tokenizer that encodes every text to no token.\<close>

definition mute_env :: "(nat, nat, nat) env" where
  "mute_env = (stub_env [] 0 True)\<lparr>llama_tokenize := (\<lambda>v text cap. (0, []))\<rparr>"



definition skipping_env :: "string list \<Rightarrow> (nat, nat, nat) env" where
  "skipping_env pieces =
     (stub_env pieces 0 True)\<lparr>llama_sampler_sample := (\<lambda>chain c. int c + 1)\<rparr>"

definition stub_logits :: "nat \<Rightarrow> nat list" where
  "stub_logits c = replicate c 0 @ [1]"

text \<open>The session that \<open>initLlama\<close> on \<^verbatim>\<open>model.gguf\<close> leaves.\<close>

definition ready :: "(nat, nat, nat) session" where
  "ready = \<lparr>g_model = Some 7, g_vocab = Some 7, g_ctx = Some 0, backend_up = True\<rparr>"

section \<open>Properties\<close>

subsection \<open>The three entry points, case by case\<close>

lemma initLlama_cases:
  "initLlama E s path =
     (case llama_model_load_from_file E (c_str path) 99 of
        None \<Rightarrow> (- 1, s\<lparr>backend_up := True, g_model := None\<rparr>, [BackendInit])
      | Some m \<Rightarrow>
          (case llama_init_from_model E m 2048 512 of
             None \<Rightarrow> (- 2, s\<lparr>backend_up := True, g_model := None, g_vocab := None, g_ctx := None\<rparr>,
                       [BackendInit, ModelFree m])
           | Some c \<Rightarrow>
               (0, s\<lparr>backend_up := True, g_model := Some m,
                     g_vocab := Some (llama_model_get_vocab E m),
                     g_ctx := Some (llama_set_n_threads E c (hardware_concurrency E)
                                      (hardware_concurrency E))\<rparr>,
                [BackendInit])))"
  by (simp add: initLlama_def Let_def split: option.splits)

lemma releaseLlama_cases:
  "releaseLlama s =
     (s\<lparr>g_ctx := None, g_model := None,
        g_vocab := (if g_model s = None then g_vocab s else None), backend_up := False\<rparr>,
      (case g_ctx s of Some c \<Rightarrow> [ContextFree c] | None \<Rightarrow> []) @
      (case g_model s of Some m \<Rightarrow> [ModelFree m] | None \<Rightarrow> []) @ [BackendFree])"
  by (cases s) (simp add: releaseLlama_def split: option.splits)

lemma generate_not_ready:
  "g_ctx s = None \<or> g_vocab s = None \<Longrightarrow>
     generateResponse E s prompt = (''Model not initialized'', s, [])"
  by (auto simp: generateResponse_def NewStringUTF_def c_str_def not_initialized_def
           split: option.splits)

lemma generate_ctx:
  "g_ctx s = None \<Longrightarrow> g_ctx (fst (snd (generateResponse E s prompt))) = None"
  by (simp add: generate_not_ready)

lemma generate_handles:
  "g_model (fst (snd (generateResponse E s p))) = g_model s \<and>
   g_vocab (fst (snd (generateResponse E s p))) = g_vocab s \<and>
   backend_up (fst (snd (generateResponse E s p))) = backend_up s \<and>
   (g_ctx (fst (snd (generateResponse E s p))) = None \<longleftrightarrow> g_ctx s = None)"
  by (auto simp: generateResponse_def Let_def split: option.splits)

lemma tokenize_prompt_None:
  "tokenize_prompt E v fp = None \<longleftrightarrow>
     (negation_overflows (fst (llama_tokenize E v fp 0)) \<or>
      0 \<le> fst (llama_tokenize E v fp 0) \<or>
      fst (llama_tokenize E v fp (nat (- fst (llama_tokenize E v fp 0)))) < 0)"
  by (auto simp: tokenize_prompt_def Let_def split: prod.splits)

lemma tokenize_prompt_defined:
  "tokenize_prompt E v fp = Some toks \<Longrightarrow>
     \<not> negation_overflows (fst (llama_tokenize E v fp 0))"
  by (auto simp: tokenize_prompt_def split: if_splits)

lemma generate_no_append:
  "tokenize_prompt E v (full_prompt prompt) = None \<Longrightarrow> g_vocab s = Some v \<Longrightarrow>
     appended (snd (snd (generateResponse E s prompt))) = []"
  by (auto simp: generateResponse_def split: option.splits)

lemma tokenize_prompt_length:
  "tokenize_prompt E v fp = Some toks \<Longrightarrow>
     int (length toks) = - fst (llama_tokenize E v fp 0) \<and> 0 < length toks"
  by (auto simp: tokenize_prompt_def Let_def split: if_splits prod.splits)

subsection \<open>The generation loop\<close>

declare gen_loop.simps [simp del]

lemma appended_append [simp]: "appended (xs @ ys) = appended xs @ appended ys"
  by (induction xs rule: appended.induct) simp_all

lemma delivered_append [simp]: "delivered (xs @ ys) = delivered xs @ delivered ys"
  by (induction xs rule: delivered.induct) simp_all

lemma n_decodes_append [simp]: "n_decodes (xs @ ys) = n_decodes xs + n_decodes ys"
  by (induction xs rule: n_decodes.induct) simp_all

lemma stream_view_append [simp]: "stream_view (xs @ ys) = stream_view xs @ stream_view ys"
  by (induction xs rule: stream_view.induct) simp_all

lemma appended_forward [simp]: "appended (forward_token E buf) = []"
  by (simp add: forward_token_def)

lemma n_decodes_forward [simp]: "n_decodes (forward_token E buf) = 0"
  by (simp add: forward_token_def)

lemma gen_loop_invariant:
  assumes "I st"
    and "\<And>st. I st \<Longrightarrow> n_pos st + int (length (batch st)) < lim \<Longrightarrow> I (snd (gen_step E v st))"
  shows "I (gen_loop E v lim st)"
  using assms
proof (induction E v lim st rule: gen_loop.induct)
  case (1 E v lim st)
  show ?case
  proof (cases "n_pos st + int (length (batch st)) < lim")
    case False
    then show ?thesis using "1.prems"(1) by (simp add: gen_loop.simps)
  next
    case guard: True
    have step: "I (snd (gen_step E v st))" using "1.prems" guard by blast
    show ?thesis
    proof (cases "fst (gen_step E v st)")
      case True
      have "I (gen_loop E v lim (snd (gen_step E v st)))"
        using "1.IH"[OF guard refl True step] "1.prems"(2) by blast
      then show ?thesis using True guard
        by (subst gen_loop.simps) (simp add: Let_def)
    next
      case False
      then show ?thesis using step guard
        by (subst gen_loop.simps) (simp add: Let_def)
    qed
  qed
qed

lemma gen_step_progress:
  "fst (gen_step E v st) \<Longrightarrow>
     n_pos (snd (gen_step E v st)) + int (length (batch (snd (gen_step E v st))))
       = n_pos st + int (length (batch st)) + 1"
  by (auto simp: gen_step_def Let_def split: prod.splits if_splits)

lemma gen_step_n_decodes:
  "n_decodes (events (snd (gen_step E v st))) = Suc (n_decodes (events st))"
  by (auto simp: gen_step_def Let_def split: prod.splits)

lemma gen_step_n_appended:
  "length (appended (events (snd (gen_step E v st)))) \<le> Suc (length (appended (events st)))"
  by (auto simp: gen_step_def Let_def split: prod.splits)

lemma gen_loop_n_decodes:
  "n_decodes (events (gen_loop E v lim st))
     \<le> n_decodes (events st) + nat (lim - (n_pos st + int (length (batch st))))"
proof (induction E v lim st rule: gen_loop.induct)
  case (1 E v lim st)
  show ?case
  proof (cases "n_pos st + int (length (batch st)) < lim")
    case False
    then show ?thesis by (simp add: gen_loop.simps)
  next
    case guard: True
    show ?thesis
    proof (cases "fst (gen_step E v st)")
      case True
      have "gen_loop E v lim st = gen_loop E v lim (snd (gen_step E v st))"
        using True guard by (subst gen_loop.simps) (simp add: Let_def)
      moreover note "1.IH"[OF guard refl True] gen_step_progress[OF True]
        gen_step_n_decodes[of E v st]
      ultimately show ?thesis using guard by simp
    next
      case False
      have "gen_loop E v lim st = snd (gen_step E v st)"
        using False guard by (subst gen_loop.simps) (simp add: Let_def)
      then show ?thesis using guard gen_step_n_decodes[of E v st] by simp
    qed
  qed
qed

lemma gen_loop_n_appended:
  "length (appended (events (gen_loop E v lim st)))
     \<le> length (appended (events st)) + nat (lim - (n_pos st + int (length (batch st))))"
proof (induction E v lim st rule: gen_loop.induct)
  case (1 E v lim st)
  show ?case
  proof (cases "n_pos st + int (length (batch st)) < lim")
    case False
    then show ?thesis by (simp add: gen_loop.simps)
  next
    case guard: True
    show ?thesis
    proof (cases "fst (gen_step E v st)")
      case True
      have "gen_loop E v lim st = gen_loop E v lim (snd (gen_step E v st))"
        using True guard by (subst gen_loop.simps) (simp add: Let_def)
      moreover note "1.IH"[OF guard refl True] gen_step_progress[OF True]
        gen_step_n_appended[of E v st]
      ultimately show ?thesis using guard by simp
    next
      case False
      have "gen_loop E v lim st = snd (gen_step E v st)"
        using False guard by (subst gen_loop.simps) (simp add: Let_def)
      then show ?thesis using guard gen_step_n_appended[of E v st] by simp
    qed
  qed
qed

lemma gen_step_guarded:
  assumes "\<forall>p b rc. Decode p b rc \<in> set (events st) \<longrightarrow> p + int (length b) < lim"
    and "n_pos st + int (length (batch st)) < lim"
  shows "\<forall>p b rc. Decode p b rc \<in> set (events (snd (gen_step E v st)))
            \<longrightarrow> p + int (length b) < lim"
  using assms
  by (auto simp: gen_step_def Let_def forward_token_def split: prod.splits if_splits)

lemma gen_loop_continue:
  "n_pos st + int (length (batch st)) < lim \<Longrightarrow> gen_step E v st = (True, st') \<Longrightarrow>
     gen_loop E v lim st = gen_loop E v lim st'"
  by (subst gen_loop.simps) (simp add: Let_def)

lemma gen_loop_break:
  "n_pos st + int (length (batch st)) < lim \<Longrightarrow> gen_step E v st = (False, st') \<Longrightarrow>
     gen_loop E v lim st = st'"
  by (subst gen_loop.simps) (simp add: Let_def)

lemma generate_ready:
  assumes "g_ctx s = Some c" and "g_vocab s = Some v"
    and "tokenize_prompt E v (full_prompt prompt) = Some toks"
  shows "generateResponse E s prompt =
     (NewStringUTF (result (gen_loop E v (int (length toks) + n_predict) (first_state c toks))),
      s\<lparr>g_ctx := Some (ctx (gen_loop E v (int (length toks) + n_predict) (first_state c toks)))\<rparr>,
      events (gen_loop E v (int (length toks) + n_predict) (first_state c toks)))"
proof -
  have "\<not> negation_overflows (fst (llama_tokenize E v (full_prompt prompt) 0))"
    using assms(3) by (rule tokenize_prompt_defined)
  then show ?thesis using assms by (simp add: generateResponse_def Let_def)
qed

lemma gen_step_events_prefix:
  "events (snd (gen_step E v st)) = events st @ step_events E v st"
  by (auto simp: step_events_def gen_step_def Let_def split: prod.splits)

lemma c_str_id: "CHR 0x00 \<notin> set s \<Longrightarrow> c_str s = s"
  by (auto simp: c_str_def takeWhile_eq_all_conv)

lemma map_c_str_id: "\<forall>f \<in> set fs. CHR 0x00 \<notin> set f \<Longrightarrow> map NewStringUTF fs = fs"
  by (induction fs) (simp_all add: NewStringUTF_def c_str_id)

subsection \<open>Bounded generation\<close>

text \<open>
  Claim C1. For a prompt of \<open>P\<close> tokens (the length of \<open>toks\<close>) and \<open>N = n_predict = 64\<close>,
  every decode call of a generation is made at a position and with a batch for which
  \<open>position + |batch| < P + N\<close>; the generation makes at most \<open>N\<close> decode calls, hence at
  most \<open>P + N\<close>; and it appends at most \<open>N\<close> fragments to the result. The loop is the
  total function \<open>gen_loop\<close>, so it ends for every library.
\<close>

theorem generation_bounded:
  assumes "g_ctx s = Some c" and "g_vocab s = Some v"
    and "tokenize_prompt E v (full_prompt prompt) = Some toks"
  shows
    "(\<forall>p b rc. Decode p b rc \<in> set (snd (snd (generateResponse E s prompt)))
        \<longrightarrow> p + int (length b) < int (length toks) + n_predict) \<and>
     n_decodes (snd (snd (generateResponse E s prompt))) \<le> nat n_predict \<and>
     n_decodes (snd (snd (generateResponse E s prompt))) \<le> length toks + nat n_predict \<and>
     length (appended (snd (snd (generateResponse E s prompt)))) \<le> nat n_predict"
proof -
  let ?lim = "int (length toks) + n_predict"
  let ?st0 = "first_state c toks"
  have ev: "snd (snd (generateResponse E s prompt)) = events (gen_loop E v ?lim ?st0)"
    by (simp add: generate_ready[OF assms])
  have d0: "nat (?lim - (n_pos ?st0 + int (length (batch ?st0)))) = nat n_predict"
    by (simp add: first_state_def)
  have e0: "events ?st0 = []" by (simp add: first_state_def)
  have g: "\<forall>p b rc. Decode p b rc \<in> set (events (gen_loop E v ?lim ?st0))
             \<longrightarrow> p + int (length b) < ?lim"
    by (rule gen_loop_invariant[where I = "\<lambda>st. \<forall>p b rc. Decode p b rc \<in> set (events st)
             \<longrightarrow> p + int (length b) < ?lim"])
       (simp add: e0, rule gen_step_guarded)
  have nd: "n_decodes (events (gen_loop E v ?lim ?st0)) \<le> nat n_predict"
    using gen_loop_n_decodes[of E v ?lim ?st0] by (simp only: d0 e0 n_decodes.simps)
  have na: "length (appended (events (gen_loop E v ?lim ?st0))) \<le> nat n_predict"
    using gen_loop_n_appended[of E v ?lim ?st0] by (simp only: d0 e0 appended.simps list.size)
  show ?thesis using g nd na unfolding ev by simp
qed

theorem generation_bounded_witness:
  "g_ctx ready = Some 0 \<and> g_vocab ready = Some 7 \<and>
   tokenize_prompt (stub_env (replicate 100 ''x'') 0 True) 7 (full_prompt ''hi'')
     = Some (map (\<lambda>c. int (of_char c)) (full_prompt ''hi'')) \<and>
   n_decodes (snd (snd (generateResponse (stub_env (replicate 100 ''x'') 0 True) ready ''hi'')))
     \<le> nat n_predict \<and>
   length (appended (snd (snd (generateResponse (stub_env (replicate 100 ''x'') 0 True) ready ''hi''))))
     \<le> nat n_predict \<and>
   length (appended (snd (snd (generateResponse (stub_env (replicate 100 ''x'') 0 True) ready ''hi''))))
     = 64"
proof -
  let ?E = "stub_env (replicate 100 ''x'') 0 True"
  have h1: "g_ctx ready = Some 0" by (simp add: ready_def)
  have h2: "g_vocab ready = Some 7" by (simp add: ready_def)
  have h3: "tokenize_prompt ?E 7 (full_prompt ''hi'')
              = Some (map (\<lambda>c. int (of_char c)) (full_prompt ''hi''))"
    by code_simp
  have tight: "length (appended (snd (snd (generateResponse ?E ready ''hi'')))) = 64"
    by code_simp
  show ?thesis
    using generation_bounded[OF h1 h2 h3] h1 h2 h3 tight by blast
qed

subsection \<open>The sentinel strings\<close>

lemma exec_Init_ctx:
  "g_ctx s = None \<Longrightarrow> fst (initLlama E s path) \<noteq> 0 \<Longrightarrow>
     g_ctx (fst (snd (initLlama E s path))) = None"
  by (auto simp: initLlama_cases split: option.splits)

lemma failed_inits_ctx:
  "g_ctx s = None \<Longrightarrow> failed_inits E s ops \<Longrightarrow> g_ctx (run E s ops) = None"
proof (induction ops arbitrary: s)
  case Nil
  then show ?case by (simp add: run_def)
next
  case (Cons x ops)
  have "g_ctx (exec E s x) = None \<and> failed_inits E (exec E s x) ops"
    using Cons.prems
    by (cases x) (auto simp: exec_Init_ctx generate_ctx releaseLlama_cases)
  then have "g_ctx (run E (exec E s x) ops) = None" using Cons.IH by blast
  then show ?case by (simp add: run_def)
qed

text \<open>
  The two sentinels, where the code returns them. After any sequence of calls from the
  uninitialized session in which no \<open>initLlama\<close> returned 0, and more generally on any
  session whose context or vocabulary handle is null, \<open>generateResponse\<close> returns the
  string \<^verbatim>\<open>Model not initialized\<close>. On a session with both handles, where the negation
  of line 90 is defined, a prompt that the two-phase tokenization does not encode returns
  the string \<^verbatim>\<open>Tokenization failed\<close>, and that is so exactly when the sizing call reports
  no token or the filling call reports an error. In both cases the session is returned
  as it was and the generation did nothing.
\<close>

theorem generate_sentinels:
  "(failed_inits E uninitialized ops \<longrightarrow>
      generateResponse E (run E uninitialized ops) prompt
        = (''Model not initialized'', run E uninitialized ops, [])) \<and>
   (g_ctx s = None \<or> g_vocab s = None \<longrightarrow>
      generateResponse E s prompt = (''Model not initialized'', s, [])) \<and>
   (\<forall>c v. g_ctx s = Some c \<longrightarrow> g_vocab s = Some v \<longrightarrow>
      \<not> negation_overflows (fst (llama_tokenize E v (full_prompt prompt) 0)) \<longrightarrow>
      (generateResponse E s prompt = (''Tokenization failed'', s, []) \<longleftrightarrow>
         0 \<le> fst (llama_tokenize E v (full_prompt prompt) 0) \<or>
         fst (llama_tokenize E v (full_prompt prompt)
                (nat (- fst (llama_tokenize E v (full_prompt prompt) 0)))) < 0))"
proof (intro conjI impI allI)
  assume "failed_inits E uninitialized ops"
  then have "g_ctx (run E uninitialized ops) = None"
    by (intro failed_inits_ctx) (simp_all add: uninitialized_def)
  then show "generateResponse E (run E uninitialized ops) prompt
        = (''Model not initialized'', run E uninitialized ops, [])"
    by (simp add: generate_not_ready)
next
  assume "g_ctx s = None \<or> g_vocab s = None"
  then show "generateResponse E s prompt = (''Model not initialized'', s, [])"
    by (rule generate_not_ready)
next
  fix c v
  let ?r = "fst (llama_tokenize E v (full_prompt prompt) 0)"
  assume h: "g_ctx s = Some c" "g_vocab s = Some v" "\<not> negation_overflows ?r"
  show "generateResponse E s prompt = (''Tokenization failed'', s, []) \<longleftrightarrow>
         0 \<le> ?r \<or> fst (llama_tokenize E v (full_prompt prompt) (nat (- ?r))) < 0"
  proof (cases "tokenize_prompt E v (full_prompt prompt)")
    case None
    then have "generateResponse E s prompt = (''Tokenization failed'', s, [])"
      using h by (simp add: generateResponse_def NewStringUTF_def c_str_def
                            tokenization_failed_def)
    then show ?thesis using None h(3) tokenize_prompt_None[of E v "full_prompt prompt"]
      by simp
  next
    case (Some toks)
    have "n_decodes (snd (snd (generateResponse E s prompt))) \<noteq> 0"
    proof -
      let ?lim = "int (length toks) + n_predict"
      have guard: "n_pos (first_state c toks) + int (length (batch (first_state c toks))) < ?lim"
        by (simp add: first_state_def n_predict_def)
      have "n_decodes (events (gen_loop E v ?lim (first_state c toks))) \<noteq> 0"
      proof (cases "fst (gen_step E v (first_state c toks))")
        case True
        have "0 < n_decodes (events (gen_loop E v ?lim (snd (gen_step E v (first_state c toks)))))"
          by (rule gen_loop_invariant[where I = "\<lambda>st. 0 < n_decodes (events st)"])
             (simp_all add: gen_step_n_decodes)
        moreover have "gen_loop E v ?lim (first_state c toks)
                         = gen_loop E v ?lim (snd (gen_step E v (first_state c toks)))"
          using guard True by (subst gen_loop.simps) (simp add: Let_def)
        ultimately show ?thesis by simp
      next
        case False
        have "gen_loop E v ?lim (first_state c toks) = snd (gen_step E v (first_state c toks))"
          using guard False by (subst gen_loop.simps) (simp add: Let_def)
        then show ?thesis by (simp add: gen_step_n_decodes)
      qed
      then show ?thesis by (simp add: generate_ready[OF h(1,2) Some])
    qed
    then have "generateResponse E s prompt \<noteq> (''Tokenization failed'', s, [])"
      by auto
    then show ?thesis using Some h(3) tokenize_prompt_None[of E v "full_prompt prompt"]
      by simp
  qed
qed

theorem generate_sentinels_witness:
  "failed_inits (stub_env [''a''] 0 True) uninitialized
     [Init ''missing.gguf'', Generate ''hi'', Release, Init ''big.gguf''] \<and>
   generateResponse (stub_env [''a''] 0 True)
       (run (stub_env [''a''] 0 True) uninitialized
          [Init ''missing.gguf'', Generate ''hi'', Release, Init ''big.gguf'']) ''hi''
     = (''Model not initialized'',
        run (stub_env [''a''] 0 True) uninitialized
          [Init ''missing.gguf'', Generate ''hi'', Release, Init ''big.gguf''], []) \<and>
   g_ctx ready = Some 0 \<and> g_vocab ready = Some 7 \<and>
   \<not> negation_overflows (fst (llama_tokenize mute_env 7 (full_prompt ''hi'') 0)) \<and>
   0 \<le> fst (llama_tokenize mute_env 7 (full_prompt ''hi'') 0) \<and>
   generateResponse mute_env ready ''hi'' = (''Tokenization failed'', ready, [])"
proof -
  let ?E = "stub_env [''a''] 0 True"
  let ?ops = "[Init ''missing.gguf'', Generate ''hi'', Release, Init ''big.gguf'']"
  have h1: "failed_inits ?E uninitialized ?ops" by code_simp
  have h2: "g_ctx ready = Some 0" "g_vocab ready = Some 7" by (simp_all add: ready_def)
  have h3: "\<not> negation_overflows (fst (llama_tokenize mute_env 7 (full_prompt ''hi'') 0))"
    by code_simp
  have h4: "0 \<le> fst (llama_tokenize mute_env 7 (full_prompt ''hi'') 0)" by code_simp
  show ?thesis
    using generate_sentinels[of ?E ?ops "''hi''" ready]
      generate_sentinels[of mute_env ?ops "''hi''" ready] h1 h2 h3 h4
    by blast
qed


subsection \<open>Initialization failures\<close>

text \<open>
  Claim C7. \<open>initLlama\<close> returns \<open>-1\<close> exactly when the model does not load and \<open>-2\<close>
  exactly when the model loads and the context cannot be created, and nothing but 0,
  \<open>-1\<close> and \<open>-2\<close>. When it returns \<open>-2\<close> the model just loaded is freed, the three
  handles are null whatever they were before, \<open>generateResponse\<close> on that session answers
  \<^verbatim>\<open>Model not initialized\<close> (the session is not ready), and \<open>releaseLlama\<close> on it frees
  nothing and leaves the uninitialized session.
\<close>

theorem init_failure_modes:
  "(fst (initLlama E s path) = - 1 \<longleftrightarrow> llama_model_load_from_file E (c_str path) 99 = None) \<and>
   (fst (initLlama E s path) = - 2 \<longleftrightarrow>
      (\<exists>m. llama_model_load_from_file E (c_str path) 99 = Some m \<and>
           llama_init_from_model E m 2048 512 = None)) \<and>
   (fst (initLlama E s path) = 0 \<or> fst (initLlama E s path) = - 1 \<or>
    fst (initLlama E s path) = - 2) \<and>
   (\<forall>m. llama_model_load_from_file E (c_str path) 99 = Some m \<longrightarrow>
        llama_init_from_model E m 2048 512 = None \<longrightarrow>
        initLlama E s path =
          (- 2, \<lparr>g_model = None, g_vocab = None, g_ctx = None, backend_up = True\<rparr>,
           [BackendInit, ModelFree m]) \<and>
        generateResponse E (fst (snd (initLlama E s path))) prompt
          = (''Model not initialized'', fst (snd (initLlama E s path)), []) \<and>
        releaseLlama (fst (snd (initLlama E s path))) = (uninitialized, [BackendFree]))"
  by (cases s)
     (auto simp: initLlama_cases releaseLlama_cases generate_not_ready uninitialized_def
           split: option.splits)

theorem init_failure_modes_witness:
  "llama_model_load_from_file (stub_env [] 0 True) (c_str ''big.gguf'') 99 = Some 8 \<and>
   llama_init_from_model (stub_env [] 0 True) 8 2048 512 = None \<and>
   initLlama (stub_env [] 0 True) ready ''big.gguf'' =
     (- 2, \<lparr>g_model = None, g_vocab = None, g_ctx = None, backend_up = True\<rparr>,
      [BackendInit, ModelFree 8]) \<and>
   fst (initLlama (stub_env [] 0 True) ready ''missing.gguf'') = - 1 \<and>
   releaseLlama (fst (snd (initLlama (stub_env [] 0 True) ready ''big.gguf'')))
     = (uninitialized, [BackendFree])"
proof -
  let ?E = "stub_env [] 0 True"
  have h1: "llama_model_load_from_file ?E (c_str ''big.gguf'') 99 = Some 8"
    by (simp add: stub_env_def c_str_def)
  have h2: "llama_init_from_model ?E 8 2048 512 = None"
    by (simp add: stub_env_def)
  have h3: "llama_model_load_from_file ?E (c_str ''missing.gguf'') 99 = None"
    by (simp add: stub_env_def c_str_def)
  show ?thesis
    using init_failure_modes[of ?E ready "''big.gguf''" "''hi''"]
      init_failure_modes[of ?E ready "''missing.gguf''" "''hi''"] h1 h2 h3
    by blast
qed

subsection \<open>Release\<close>

text \<open>
  Claim C6. From every session, a second \<open>releaseLlama\<close> leaves the session the first one
  left and frees nothing; on the uninitialized session \<open>releaseLlama\<close> changes nothing and
  frees nothing (the one call it makes is the unconditional \<^verbatim>\<open>llama_backend_free\<close>).
  A release frees the context first when there is one, then the model when there is
  one, then shuts the backend down; afterwards the context and model handles are null
  and the backend is down. On the released session \<open>initLlama\<close> returns 0 and sets the
  three handles whenever the library loads the model and creates the context.
\<close>

theorem release_idempotent:
  "fst (releaseLlama (fst (releaseLlama s))) = fst (releaseLlama s) \<and>
   snd (releaseLlama (fst (releaseLlama s))) = [BackendFree] \<and>
   releaseLlama (uninitialized :: ('m, 'v, 'k) session) = (uninitialized, [BackendFree]) \<and>
   g_ctx (fst (releaseLlama s)) = None \<and> g_model (fst (releaseLlama s)) = None \<and>
   \<not> backend_up (fst (releaseLlama s)) \<and>
   snd (releaseLlama s) =
     (case g_ctx s of Some c \<Rightarrow> [ContextFree c] | None \<Rightarrow> []) @
     (case g_model s of Some m \<Rightarrow> [ModelFree m] | None \<Rightarrow> []) @ [BackendFree] \<and>
   (\<forall>m c. llama_model_load_from_file E (c_str path) 99 = Some m \<longrightarrow>
          llama_init_from_model E m 2048 512 = Some c \<longrightarrow>
          fst (initLlama E (fst (releaseLlama s)) path) = 0 \<and>
          g_model (fst (snd (initLlama E (fst (releaseLlama s)) path))) = Some m \<and>
          g_ctx (fst (snd (initLlama E (fst (releaseLlama s)) path))) \<noteq> None \<and>
          g_vocab (fst (snd (initLlama E (fst (releaseLlama s)) path))) \<noteq> None)"
  by (simp add: releaseLlama_cases initLlama_cases uninitialized_def)

theorem release_idempotent_witness:
  "llama_model_load_from_file (stub_env [] 0 True) (c_str ''model.gguf'') 99 = Some 7 \<and>
   llama_init_from_model (stub_env [] 0 True) 7 2048 512 = Some 0 \<and>
   releaseLlama ready = (uninitialized, [ContextFree 0, ModelFree 7, BackendFree]) \<and>
   releaseLlama (fst (releaseLlama ready)) = (uninitialized, [BackendFree]) \<and>
   initLlama (stub_env [] 0 True) (fst (releaseLlama (fst (releaseLlama ready)))) ''model.gguf''
     = (0, ready, [BackendInit])"
proof -
  let ?E = "stub_env [] 0 True"
  have h1: "llama_model_load_from_file ?E (c_str ''model.gguf'') 99 = Some 7"
    by (simp add: stub_env_def c_str_def)
  have h2: "llama_init_from_model ?E 7 2048 512 = Some 0"
    by (simp add: stub_env_def)
  have r: "releaseLlama ready = (uninitialized, [ContextFree 0, ModelFree 7, BackendFree])"
    by (simp add: releaseLlama_cases ready_def uninitialized_def)
  have i: "initLlama ?E uninitialized ''model.gguf'' = (0, ready, [BackendInit])"
    by (simp add: initLlama_cases h1 h2 ready_def uninitialized_def stub_env_def c_str_def)
  have rr: "releaseLlama (uninitialized :: (nat, nat, nat) session)
              = (uninitialized, [BackendFree])"
    by (simp add: releaseLlama_cases uninitialized_def)
  show ?thesis
    using release_idempotent[of ready ?E "''model.gguf''"] h1 h2
    by (simp add: r rr i)
qed

subsection \<open>The handles after every call\<close>

lemma handle_inv_generate: "handle_inv s \<Longrightarrow> handle_inv (exec E s (Generate p))"
  using generate_handles[of E s p] by (auto simp: handle_inv_def)

lemma handle_inv_release: "handle_inv s \<Longrightarrow> handle_inv (exec E s Release)"
  by (auto simp: handle_inv_def releaseLlama_cases)

lemma handle_inv_init:
  "handle_inv s \<Longrightarrow>
     handle_inv (exec E s (Init path)) \<longleftrightarrow>
       \<not> (fst (initLlama E s path) = - 1 \<and> g_model s \<noteq> None)"
  by (auto simp: handle_inv_def initLlama_cases split: option.splits)

lemma handle_inv_run:
  "handle_inv s \<Longrightarrow> fresh_inits E s ops \<Longrightarrow> handle_inv (run E s ops)"
proof (induction ops arbitrary: s)
  case Nil
  then show ?case by (simp add: run_def)
next
  case (Cons x ops)
  have "handle_inv (exec E s x) \<and> fresh_inits E (exec E s x) ops"
  proof (cases x)
    case (Init path)
    then show ?thesis using Cons.prems handle_inv_init[of s E path] by auto
  next
    case (Generate p)
    then show ?thesis using Cons.prems handle_inv_generate[of s E p] by auto
  next
    case Release
    then show ?thesis using Cons.prems handle_inv_release[of s E] by auto
  qed
  then have "handle_inv (run E (exec E s x) ops)" using Cons.IH by blast
  then show ?case by (simp add: run_def)
qed

lemma fresh_inits_take: "fresh_inits E s ops \<Longrightarrow> fresh_inits E s (take k ops)"
proof (induction ops arbitrary: s k)
  case Nil
  then show ?case by simp
next
  case (Cons x ops)
  show ?case
  proof (cases k)
    case 0
    then show ?thesis by simp
  next
    case (Suc j)
    then show ?thesis using Cons by (cases x) auto
  qed
qed

text \<open>
  Claim C10, as stated, fails: \<open>initLlama\<close> does not look at the handles it finds. Called
  on a ready session with a path that does not load, it nulls the model handle, returns
  \<open>-1\<close> and leaves the context and vocabulary handles of the earlier model in place; a
  release after that still leaves the vocabulary handle.
\<close>

theorem handle_inv_counterexample:
  "handle_inv (uninitialized :: (nat, nat, nat) session) \<and>
   handle_inv (run (stub_env [] 0 True) uninitialized [Init ''model.gguf'']) \<and>
   run (stub_env [] 0 True) uninitialized [Init ''model.gguf'', Init ''missing.gguf'']
     = \<lparr>g_model = None, g_vocab = Some 7, g_ctx = Some 0, backend_up = True\<rparr> \<and>
   \<not> handle_inv (run (stub_env [] 0 True) uninitialized
                   [Init ''model.gguf'', Init ''missing.gguf'']) \<and>
   \<not> handle_inv (run (stub_env [] 0 True) uninitialized
                   [Init ''model.gguf'', Init ''missing.gguf'', Release])"
  by code_simp

text \<open>
  Claim C10, amended. From a session that satisfies the property of the handles, it
  holds again after every \<open>generateResponse\<close>, after every \<open>releaseLlama\<close>, and after an
  \<open>initLlama\<close> unless that call returns \<open>-1\<close> on a session that holds a model. So it
  holds after every call of a sequence in which \<open>initLlama\<close> is only called on a session
  that holds no model.
\<close>

theorem handle_inv_preserved:
  assumes "handle_inv s"
  shows "handle_inv (exec E s (Generate prompt)) \<and>
         handle_inv (exec E s Release) \<and>
         (handle_inv (exec E s (Init path)) \<longleftrightarrow>
            \<not> (fst (initLlama E s path) = - 1 \<and> g_model s \<noteq> None)) \<and>
         (fresh_inits E s ops \<longrightarrow> (\<forall>k. handle_inv (run E s (take k ops))))"
proof (intro conjI impI allI)
  show "handle_inv (exec E s (Generate prompt))"
    using assms by (rule handle_inv_generate)
  show "handle_inv (exec E s Release)"
    using assms by (rule handle_inv_release)
  show "handle_inv (exec E s (Init path)) \<longleftrightarrow>
          \<not> (fst (initLlama E s path) = - 1 \<and> g_model s \<noteq> None)"
    using assms by (rule handle_inv_init)
next
  fix k
  assume "fresh_inits E s ops"
  then have "fresh_inits E s (take k ops)" by (rule fresh_inits_take)
  with assms show "handle_inv (run E s (take k ops))" by (rule handle_inv_run)
qed

theorem handle_inv_preserved_witness:
  "handle_inv (uninitialized :: (nat, nat, nat) session) \<and>
   fresh_inits (stub_env [''a''] 0 True) uninitialized
     [Init ''model.gguf'', Generate ''hi'', Release, Init ''big.gguf'', Init ''missing.gguf'',
      Init ''model.gguf''] \<and>
   handle_inv (run (stub_env [''a''] 0 True) uninitialized
     (take 6 [Init ''model.gguf'', Generate ''hi'', Release, Init ''big.gguf'',
              Init ''missing.gguf'', Init ''model.gguf''])) \<and>
   handle_inv (run (stub_env [''a''] 0 True) uninitialized
     (take 5 [Init ''model.gguf'', Generate ''hi'', Release, Init ''big.gguf'',
              Init ''missing.gguf'', Init ''model.gguf'']))"
proof -
  let ?E = "stub_env [''a''] 0 True"
  let ?ops = "[Init ''model.gguf'', Generate ''hi'', Release, Init ''big.gguf'',
               Init ''missing.gguf'', Init ''model.gguf'']"
  have h1: "handle_inv (uninitialized :: (nat, nat, nat) session)" by code_simp
  have h2: "fresh_inits ?E uninitialized ?ops" by code_simp
  show ?thesis
    using handle_inv_preserved[OF h1, of ?E "''hi''" "''model.gguf''" ?ops] h1 h2
    by blast
qed

subsection \<open>Decode failure\<close>

lemma run_steps_loop:
  "run_steps E v lim k st = Some st' \<Longrightarrow> gen_loop E v lim st = gen_loop E v lim st'"
proof (induction k arbitrary: st)
  case 0
  then show ?case by simp
next
  case (Suc k)
  from Suc.prems have guard: "n_pos st + int (length (batch st)) < lim"
    and cont: "fst (gen_step E v st)"
    and rest: "run_steps E v lim k (snd (gen_step E v st)) = Some st'"
    by (auto simp: Let_def split: if_splits)
  have "gen_loop E v lim st = gen_loop E v lim (snd (gen_step E v st))"
    using guard cont by (subst gen_loop.simps) (simp add: Let_def)
  also have "\<dots> = gen_loop E v lim st'" using rest by (rule Suc.IH)
  finally show ?case .
qed

lemma gen_step_fail:
  "fst (llama_decode E (ctx st) (batch st)) \<noteq> 0 \<Longrightarrow>
     gen_step E v st =
       (False, st\<lparr>ctx := snd (llama_decode E (ctx st) (batch st)),
                  events := events st @
                    [Decode (n_pos st) (batch st) (fst (llama_decode E (ctx st) (batch st)))]\<rparr>)"
  by (auto simp: gen_step_def Let_def split: prod.splits)

text \<open>
  Claim C2, as stated, fails on a fragment that holds a NUL byte: \<^verbatim>\<open>result.append(buf, n)\<close>
  keeps all \<open>n\<close> bytes, and the return \<^verbatim>\<open>NewStringUTF(result.c_str())\<close> reads the result
  up to its first NUL byte. Here three passes accumulate five bytes, the fourth decode
  call fails, and two bytes are returned.
\<close>

theorem decode_failure_counterexample:
  "tokenize_prompt (stub_env [''ab'', [CHR 0x00], ''cd''] 4 True) 7 (full_prompt ''hi'')
     = Some (map (\<lambda>c. int (of_char c)) (full_prompt ''hi'')) \<and>
   run_steps (stub_env [''ab'', [CHR 0x00], ''cd''] 4 True) 7 (58 + n_predict) 3
       (first_state 0 (map (\<lambda>c. int (of_char c)) (full_prompt ''hi'')))
     = Some \<lparr>ctx = 3, n_pos = 60, batch = [3], result = ''ab'' @ [CHR 0x00] @ ''cd'',
             events = [Decode 0 (map (\<lambda>c. int (of_char c)) (full_prompt ''hi'')) 0,
                       BufStore 2, Append ''ab'', Sink ''ab'',
                       Decode 58 [1] 0, BufStore 1, Append [CHR 0x00], Sink '''',
                       Decode 59 [2] 0, BufStore 2, Append ''cd'', Sink ''cd'']\<rparr> \<and>
   fst (llama_decode (stub_env [''ab'', [CHR 0x00], ''cd''] 4 True) 3 [3]) = 1 \<and>
   fst (generateResponse (stub_env [''ab'', [CHR 0x00], ''cd''] 4 True) ready ''hi'') = ''ab'' \<and>
   ''ab'' \<noteq> ''ab'' @ [CHR 0x00] @ ''cd''"
  by code_simp

text \<open>
  Claim C2, amended. If the loop makes \<open>k\<close> passes without leaving and the decode call of
  the next pass fails, \<open>generateResponse\<close> returns the text accumulated through pass \<open>k\<close>
  read as a C string, which is exactly that text when it holds no NUL byte; the
  generation's events are those of the \<open>k\<close> passes and the failed decode call, so nothing
  further is appended or delivered; and every call returns, the functions being total.
\<close>

theorem decode_failure_partial:
  assumes "g_ctx s = Some c" and "g_vocab s = Some v"
    and "tokenize_prompt E v (full_prompt prompt) = Some toks"
    and "run_steps E v (int (length toks) + n_predict) k (first_state c toks) = Some st"
    and "n_pos st + int (length (batch st)) < int (length toks) + n_predict"
    and "fst (llama_decode E (ctx st) (batch st)) \<noteq> 0"
  shows "generateResponse E s prompt =
           (NewStringUTF (result st),
            s\<lparr>g_ctx := Some (snd (llama_decode E (ctx st) (batch st)))\<rparr>,
            events st @
              [Decode (n_pos st) (batch st) (fst (llama_decode E (ctx st) (batch st)))]) \<and>
         (CHR 0x00 \<notin> set (result st) \<longrightarrow> fst (generateResponse E s prompt) = result st)"
proof -
  let ?lim = "int (length toks) + n_predict"
  let ?st' = "st\<lparr>ctx := snd (llama_decode E (ctx st) (batch st)),
                  events := events st @
                    [Decode (n_pos st) (batch st) (fst (llama_decode E (ctx st) (batch st)))]\<rparr>"
  have "gen_loop E v ?lim (first_state c toks) = gen_loop E v ?lim st"
    using assms(4) by (rule run_steps_loop)
  also have "\<dots> = ?st'"
    using assms(5) gen_step_fail[OF assms(6)] by (rule gen_loop_break)
  finally have fin: "gen_loop E v ?lim (first_state c toks) = ?st'" .
  have g: "generateResponse E s prompt =
           (NewStringUTF (result st),
            s\<lparr>g_ctx := Some (snd (llama_decode E (ctx st) (batch st)))\<rparr>,
            events st @
              [Decode (n_pos st) (batch st) (fst (llama_decode E (ctx st) (batch st)))])"
    by (simp add: generate_ready[OF assms(1-3)] fin)
  show ?thesis
    by (simp add: g NewStringUTF_def c_str_id)
qed

theorem decode_failure_partial_witness:
  "g_ctx ready = Some 0 \<and> g_vocab ready = Some 7 \<and>
   tokenize_prompt (stub_env [''ab'', ''cd'', ''ef''] 3 True) 7 (full_prompt ''hi'')
     = Some (map (\<lambda>c. int (of_char c)) (full_prompt ''hi'')) \<and>
   run_steps (stub_env [''ab'', ''cd'', ''ef''] 3 True) 7 (58 + n_predict) 2
       (first_state 0 (map (\<lambda>c. int (of_char c)) (full_prompt ''hi'')))
     = Some \<lparr>ctx = 2, n_pos = 59, batch = [2], result = ''abcd'',
             events = [Decode 0 (map (\<lambda>c. int (of_char c)) (full_prompt ''hi'')) 0,
                       BufStore 2, Append ''ab'', Sink ''ab'',
                       Decode 58 [1] 0, BufStore 2, Append ''cd'', Sink ''cd'']\<rparr> \<and>
   fst (llama_decode (stub_env [''ab'', ''cd'', ''ef''] 3 True) 2 [2]) \<noteq> 0 \<and>
   generateResponse (stub_env [''ab'', ''cd'', ''ef''] 3 True) ready ''hi'' =
     (''abcd'', ready\<lparr>g_ctx := Some 2\<rparr>,
      [Decode 0 (map (\<lambda>c. int (of_char c)) (full_prompt ''hi'')) 0,
       BufStore 2, Append ''ab'', Sink ''ab'',
       Decode 58 [1] 0, BufStore 2, Append ''cd'', Sink ''cd'',
       Decode 59 [2] 1])"
proof -
  let ?E = "stub_env [''ab'', ''cd'', ''ef''] 3 True"
  let ?toks = "map (\<lambda>c. int (of_char c)) (full_prompt ''hi'')"
  let ?st = "\<lparr>ctx = 2 :: nat, n_pos = 59, batch = [2], result = ''abcd'',
             events = [Decode 0 ?toks 0, BufStore 2, Append ''ab'', Sink ''ab'',
                       Decode 58 [1] 0, BufStore 2, Append ''cd'', Sink ''cd'']\<rparr>"
  have h1: "g_ctx ready = Some 0" by (simp add: ready_def)
  have h2: "g_vocab ready = Some 7" by (simp add: ready_def)
  have h3: "tokenize_prompt ?E 7 (full_prompt ''hi'') = Some ?toks" by code_simp
  have len: "int (length ?toks) = 58" by code_simp
  have h4: "run_steps ?E 7 (58 + n_predict) 2 (first_state 0 ?toks) = Some ?st" by code_simp
  have h4': "run_steps ?E 7 (int (length ?toks) + n_predict) 2 (first_state 0 ?toks) = Some ?st"
    using h4 by (simp only: len)
  have h5: "n_pos ?st + int (length (batch ?st)) < int (length ?toks) + n_predict"
    by (simp only: len) (simp add: n_predict_def)
  have h6: "fst (llama_decode ?E (ctx ?st) (batch ?st)) \<noteq> 0" by (simp add: stub_env_def)
  have d: "llama_decode ?E (ctx ?st) (batch ?st) = (1, 2)" by (simp add: stub_env_def)
  have "generateResponse ?E ready ''hi'' =
           (NewStringUTF (result ?st),
            ready\<lparr>g_ctx := Some (snd (llama_decode ?E (ctx ?st) (batch ?st)))\<rparr>,
            events ?st @
              [Decode (n_pos ?st) (batch ?st) (fst (llama_decode ?E (ctx ?st) (batch ?st)))])"
    using decode_failure_partial[OF h1 h2 h3 h4' h5 h6] by (elim conjE)
  also have "\<dots> = (''abcd'', ready\<lparr>g_ctx := Some 2\<rparr>,
      [Decode 0 ?toks 0, BufStore 2, Append ''ab'', Sink ''ab'',
       Decode 58 [1] 0, BufStore 2, Append ''cd'', Sink ''cd'', Decode 59 [2] 1])"
    unfolding d by (simp add: NewStringUTF_def c_str_def)
  finally show ?thesis using h1 h2 h3 h4 h6 by simp
qed

subsection \<open>The textual stop marker\<close>

lemma c_str_stop_marker: "c_str stop_marker = stop_marker"
  by (simp add: c_str_def stop_marker_def)

lemma length_stop_marker: "length stop_marker = 13"
  by (simp add: stop_marker_def)

lemma c_str_prefix: "prefix (c_str s) s"
  unfolding c_str_def by (metis prefixI takeWhile_dropWhile_id)

lemma c_str_marker_append: "c_str (stop_marker @ r) = stop_marker @ c_str r"
  by (simp add: c_str_def stop_marker_def)

lemma strncmp_stop_marker:
  "strncmp_eq0 buf stop_marker 13 \<longleftrightarrow> prefix stop_marker buf"
proof
  assume "strncmp_eq0 buf stop_marker 13"
  then have "take 13 (c_str buf) = stop_marker"
    by (simp add: strncmp_eq0_def c_str_stop_marker length_stop_marker)
  then have "prefix stop_marker (c_str buf)"
    by (metis take_is_prefix)
  then show "prefix stop_marker buf"
    using c_str_prefix prefix_order.trans by blast
next
  assume "prefix stop_marker buf"
  then obtain r where "buf = stop_marker @ r" by (auto simp: prefix_def)
  then show "strncmp_eq0 buf stop_marker 13"
    by (simp add: strncmp_eq0_def c_str_marker_append c_str_stop_marker length_stop_marker)
qed

lemma gen_step_stop:
  assumes "fst (llama_decode E (ctx st) (batch st)) = 0"
    and "tok = llama_sampler_sample E [Greedy] (snd (llama_decode E (ctx st) (batch st)))"
    and "\<not> llama_vocab_is_eog E v tok"
    and "llama_token_to_piece E v tok buf_size = (n, stored)"
    and "0 < n"
    and "prefix stop_marker (take (nat n) stored)"
  shows "gen_step E v st =
     (False, st\<lparr>ctx := snd (llama_decode E (ctx st) (batch st)),
                n_pos := n_pos st + int (length (batch st)),
                events := events st @ [Decode (n_pos st) (batch st) 0, BufStore n]\<rparr>)"
  using assms
  by (cases st) (auto simp: gen_step_def Let_def strncmp_stop_marker split: prod.splits)

lemma gen_step_no_marker:
  assumes "\<forall>f \<in> set (appended (events st)). \<not> prefix stop_marker f"
  shows "\<forall>f \<in> set (appended (events (snd (gen_step E v st)))). \<not> prefix stop_marker f"
  using assms
  by (auto simp: gen_step_def Let_def strncmp_stop_marker split: prod.splits if_splits)

text \<open>
  Claim C3, as stated, fails: the check of line 146 looks at one fragment at a time and
  at its first 13 bytes. A marker that arrives in two fragments, or after other text in
  one fragment, is appended, and the text returned contains it.
\<close>

theorem stop_marker_counterexample:
  "fst (generateResponse (stub_env [''<end_'', ''of_turn>''] 0 True) ready ''hi'')
     = ''<end_of_turn>'' \<and>
   sublist stop_marker
     (fst (generateResponse (stub_env [''<end_'', ''of_turn>''] 0 True) ready ''hi'')) \<and>
   fst (generateResponse (stub_env [''a <end_of_turn>''] 0 True) ready ''hi'')
     = ''a <end_of_turn>''"
proof -
  have a: "fst (generateResponse (stub_env [''<end_'', ''of_turn>''] 0 True) ready ''hi'')
     = ''<end_of_turn>''" by code_simp
  have b: "fst (generateResponse (stub_env [''a <end_of_turn>''] 0 True) ready ''hi'')
     = ''a <end_of_turn>''" by code_simp
  show ?thesis unfolding a b by (simp add: stop_marker_def)
qed

text \<open>
  Claim C3, amended. When the fragment of a sampled token begins with the 13 bytes of
  the stop marker (it is the marker, or the marker followed by more), the pass leaves the
  loop before the append: the result is what it was, and nothing is appended or
  delivered. So no fragment appended by any generation begins with the marker.
\<close>

theorem marker_fragment_stops:
  assumes "fst (llama_decode E (ctx st) (batch st)) = 0"
    and "tok = llama_sampler_sample E [Greedy] (snd (llama_decode E (ctx st) (batch st)))"
    and "\<not> llama_vocab_is_eog E v tok"
    and "llama_token_to_piece E v tok buf_size = (n, stored)"
    and "0 < n"
    and "prefix stop_marker (take (nat n) stored)"
  shows "gen_step E v st =
           (False, st\<lparr>ctx := snd (llama_decode E (ctx st) (batch st)),
                      n_pos := n_pos st + int (length (batch st)),
                      events := events st @ [Decode (n_pos st) (batch st) 0, BufStore n]\<rparr>) \<and>
         (n_pos st + int (length (batch st)) < lim \<longrightarrow>
            gen_loop E v lim st =
              st\<lparr>ctx := snd (llama_decode E (ctx st) (batch st)),
                 n_pos := n_pos st + int (length (batch st)),
                 events := events st @ [Decode (n_pos st) (batch st) 0, BufStore n]\<rparr>) \<and>
         (\<forall>E' s prompt f.
            f \<in> set (appended (snd (snd (generateResponse (E' :: ('m, 'v, 'k) env) s prompt))))
              \<longrightarrow> \<not> prefix stop_marker f)"
proof (intro conjI impI allI)
  show step: "gen_step E v st =
           (False, st\<lparr>ctx := snd (llama_decode E (ctx st) (batch st)),
                      n_pos := n_pos st + int (length (batch st)),
                      events := events st @ [Decode (n_pos st) (batch st) 0, BufStore n]\<rparr>)"
    using assms by (rule gen_step_stop)
  show "gen_loop E v lim st =
              st\<lparr>ctx := snd (llama_decode E (ctx st) (batch st)),
                 n_pos := n_pos st + int (length (batch st)),
                 events := events st @ [Decode (n_pos st) (batch st) 0, BufStore n]\<rparr>"
    if "n_pos st + int (length (batch st)) < lim"
    using that step by (rule gen_loop_break)
next
  fix E' :: "('m, 'v, 'k) env" and s prompt f
  assume f: "f \<in> set (appended (snd (snd (generateResponse E' s prompt))))"
  show "\<not> prefix stop_marker f"
  proof (cases "\<exists>c v toks. g_ctx s = Some c \<and> g_vocab s = Some v \<and>
                  tokenize_prompt E' v (full_prompt prompt) = Some toks")
    case True
    then obtain c v toks where h: "g_ctx s = Some c" "g_vocab s = Some v"
      "tokenize_prompt E' v (full_prompt prompt) = Some toks" by blast
    let ?lim = "int (length toks) + n_predict"
    have "\<forall>f \<in> set (appended (events (gen_loop E' v ?lim (first_state c toks)))).
            \<not> prefix stop_marker f"
      by (rule gen_loop_invariant[where I = "\<lambda>st. \<forall>f \<in> set (appended (events st)).
            \<not> prefix stop_marker f"])
         (simp add: first_state_def, rule gen_step_no_marker)
    then show ?thesis using f by (simp add: generate_ready[OF h])
  next
    case False
    then have "appended (snd (snd (generateResponse E' s prompt))) = []"
      by (auto simp: generateResponse_def split: option.splits)
    then show ?thesis using f by simp
  qed
qed

theorem marker_fragment_stops_witness:
  "fst (llama_decode (stub_env [''a'', ''<end_of_turn>x'', ''b''] 0 True) 1 [1]) = 0 \<and>
   2 = llama_sampler_sample (stub_env [''a'', ''<end_of_turn>x'', ''b''] 0 True) [Greedy]
         (snd (llama_decode (stub_env [''a'', ''<end_of_turn>x'', ''b''] 0 True) 1 [1])) \<and>
   \<not> llama_vocab_is_eog (stub_env [''a'', ''<end_of_turn>x'', ''b''] 0 True) 7 2 \<and>
   llama_token_to_piece (stub_env [''a'', ''<end_of_turn>x'', ''b''] 0 True) 7 2 buf_size
     = (14, ''<end_of_turn>x'') \<and>
   prefix stop_marker (take (nat 14) ''<end_of_turn>x'') \<and>
   gen_loop (stub_env [''a'', ''<end_of_turn>x'', ''b''] 0 True) 7 122
       \<lparr>ctx = 1, n_pos = 58, batch = [1], result = ''a'', events = []\<rparr>
     = \<lparr>ctx = 2, n_pos = 59, batch = [1], result = ''a'',
        events = [Decode 58 [1] 0, BufStore 14]\<rparr> \<and>
   fst (generateResponse (stub_env [''a'', ''<end_of_turn>x'', ''b''] 0 True) ready ''hi'')
     = ''a''"
proof -
  let ?E = "stub_env [''a'', ''<end_of_turn>x'', ''b''] 0 True"
  let ?st = "\<lparr>ctx = 1 :: nat, n_pos = 58, batch = [1], result = ''a'', events = []\<rparr>"
  have h1: "fst (llama_decode ?E (ctx ?st) (batch ?st)) = 0" by (simp add: stub_env_def)
  have h2: "2 = llama_sampler_sample ?E [Greedy] (snd (llama_decode ?E (ctx ?st) (batch ?st)))"
    by (simp add: stub_env_def)
  have h3: "\<not> llama_vocab_is_eog ?E 7 2" by (simp add: stub_env_def)
  have h4: "llama_token_to_piece ?E 7 2 buf_size = (14, ''<end_of_turn>x'')"
    by (simp add: stub_env_def buf_size_def)
  have h5: "(0 :: int) < 14" by simp
  have h6: "prefix stop_marker (take (nat 14) ''<end_of_turn>x'')"
    by (simp add: stop_marker_def)
  have g: "fst (generateResponse ?E ready ''hi'') = ''a''" by code_simp
  have guard: "n_pos ?st + int (length (batch ?st)) < 122" by simp
  have "gen_loop ?E 7 122 ?st =
          ?st\<lparr>ctx := snd (llama_decode ?E (ctx ?st) (batch ?st)),
              n_pos := n_pos ?st + int (length (batch ?st)),
              events := events ?st @ [Decode (n_pos ?st) (batch ?st) 0, BufStore 14]\<rparr>"
    using marker_fragment_stops[OF h1 h2 h3 h4 h5 h6, of 122] guard by (elim conjE impE)
  also have "\<dots> = \<lparr>ctx = 2, n_pos = 59, batch = [1], result = ''a'',
                    events = [Decode 58 [1] 0, BufStore 14]\<rparr>"
    by (simp add: stub_env_def)
  finally show ?thesis using h1 h2 h3 h4 h6 g by simp
qed

subsection \<open>The streaming sink\<close>

lemma delivered_forward [simp]:
  "sink_resolves E \<Longrightarrow> delivered (forward_token E buf) = [NewStringUTF buf]"
  by (simp add: forward_token_def sink_resolves_def)

lemma stream_view_forward [simp]:
  "sink_resolves E \<Longrightarrow> stream_view (forward_token E buf) = [Sink (NewStringUTF buf)]"
  by (simp add: forward_token_def sink_resolves_def)




lemma forward_token_unresolved:
  "\<not> sink_resolves E \<Longrightarrow> forward_token E buf = [ExceptionPending]"
  by (auto simp: forward_token_def sink_resolves_def)

lemma gen_step_undelivered:
  "\<not> sink_resolves E \<Longrightarrow> delivered (events st) = [] \<Longrightarrow>
     delivered (events (snd (gen_step E v st))) = []"
  by (auto simp: gen_step_def Let_def forward_token_unresolved split: prod.splits)

text \<open>Both lookups guard the delivery: where either fails, no generation delivers.\<close>

lemma no_sink_no_delivery:
  "\<not> sink_resolves E \<Longrightarrow> delivered (snd (snd (generateResponse E s prompt))) = []"
proof -
  assume ns: "\<not> sink_resolves E"
  have loop: "delivered (events (gen_loop E v lim (first_state c toks))) = []" for v lim c toks
    by (rule gen_loop_invariant[where I = "\<lambda>st. delivered (events st) = []"])
       (simp add: first_state_def, rule gen_step_undelivered[OF ns])
  show ?thesis
    by (auto simp: generateResponse_def Let_def loop split: option.splits)
qed




subsection \<open>Determinism\<close>



lemma arg_max_from_zeros:
  "arg_max_from (0 :: nat) ibest i (replicate k 0 @ [Suc 0]) = i + k"
  by (induction k arbitrary: i ibest) simp_all

lemma arg_max_stub_logits: "arg_max (stub_logits c) = int c"
  by (cases c) (simp_all add: arg_max_def stub_logits_def arg_max_from_zeros)



text \<open>
  The greedy hypothesis carries the claim. Two runs of the same backend whose samplers
  differ on the greedy chain return different texts for the same prompt, context and
  vocabulary; the second run is not greedy for the logits of the first.
\<close>

lemma sampler_decides:
  "same_backend (stub_env [''He'', ''llo''] 0 True) (skipping_env [''He'', ''llo'']) \<and>
   fst (generateResponse (stub_env [''He'', ''llo''] 0 True) ready ''hi'') = ''Hello'' \<and>
   fst (generateResponse (skipping_env [''He'', ''llo'']) ready ''hi'') = ''llo'' \<and>
   llama_sampler_sample (skipping_env [''He'', ''llo'']) [Greedy] 1 \<noteq> arg_max (stub_logits 1)"
proof -
  have "same_backend (stub_env [''He'', ''llo''] 0 True) (skipping_env [''He'', ''llo''])"
    by (simp add: same_backend_def skipping_env_def stub_env_def)
  moreover have "fst (generateResponse (stub_env [''He'', ''llo''] 0 True) ready ''hi'')
                   = ''Hello''"
    by code_simp
  moreover have "fst (generateResponse (skipping_env [''He'', ''llo'']) ready ''hi'') = ''llo''"
    by code_simp
  moreover have "llama_sampler_sample (skipping_env [''He'', ''llo'']) [Greedy] 1
                   \<noteq> arg_max (stub_logits 1)"
    by (simp add: skipping_env_def arg_max_stub_logits)
  ultimately show ?thesis by (intro conjI)
qed

text \<open>
  The context must be the same: a call advances it, so a second call on the session the
  first one left need not return the same text.
\<close>

lemma repeated_call_differs:
  "fst (generateResponse (stub_env [''He'', ''llo''] 0 True) ready ''hi'') = ''Hello'' \<and>
   fst (generateResponse (stub_env [''He'', ''llo''] 0 True)
          (fst (snd (generateResponse (stub_env [''He'', ''llo''] 0 True) ready ''hi'')))
          ''hi'') = ''''"
  by code_simp

subsection \<open>Tokens without a fragment\<close>

lemma gen_step_skip:
  assumes "fst (llama_decode E (ctx st) (batch st)) = 0"
    and "tok = llama_sampler_sample E [Greedy] (snd (llama_decode E (ctx st) (batch st)))"
    and "\<not> llama_vocab_is_eog E v tok"
    and "fst (llama_token_to_piece E v tok buf_size) \<le> 0"
  shows "gen_step E v st =
     (True, st\<lparr>ctx := snd (llama_decode E (ctx st) (batch st)),
               n_pos := n_pos st + int (length (batch st)),
               batch := [tok],
               events := events st @ [Decode (n_pos st) (batch st) 0]\<rparr>)"
  using assms by (cases st) (auto simp: gen_step_def Let_def split: prod.splits)

lemma step_events_BufStore:
  "BufStore i \<in> set (step_events E v st) \<Longrightarrow>
     i = fst (llama_token_to_piece E v
            (llama_sampler_sample E [Greedy] (snd (llama_decode E (ctx st) (batch st))))
            buf_size) \<and> 0 < i"
  by (auto simp: step_events_def gen_step_def Let_def forward_token_def
           split: prod.splits if_splits)

text \<open>
  Claim C9. When the decode call succeeds, the sampled token is not an end-of-generation
  token and token-to-piece returns \<open>n \<le> 0\<close> for it, the pass changes the context and
  the position only, makes the token the next batch and stays in the loop, whatever the
  buffer holds: the result is what it was, the pass's one event is the decode call (no
  store into the buffer, no append, no delivery), and the loop goes on from that state.
  In every pass, a store of the file into the buffer is at index \<open>n\<close> of that pass, with
  \<open>n > 0\<close>.
\<close>

theorem empty_piece_skipped:
  assumes "fst (llama_decode E (ctx st) (batch st)) = 0"
    and "tok = llama_sampler_sample E [Greedy] (snd (llama_decode E (ctx st) (batch st)))"
    and "\<not> llama_vocab_is_eog E v tok"
    and "fst (llama_token_to_piece E v tok buf_size) \<le> 0"
  shows "gen_step E v st =
           (True, st\<lparr>ctx := snd (llama_decode E (ctx st) (batch st)),
                     n_pos := n_pos st + int (length (batch st)),
                     batch := [tok],
                     events := events st @ [Decode (n_pos st) (batch st) 0]\<rparr>) \<and>
         (n_pos st + int (length (batch st)) < lim \<longrightarrow>
            gen_loop E v lim st =
              gen_loop E v lim
                (st\<lparr>ctx := snd (llama_decode E (ctx st) (batch st)),
                    n_pos := n_pos st + int (length (batch st)),
                    batch := [tok],
                    events := events st @ [Decode (n_pos st) (batch st) 0]\<rparr>)) \<and>
         step_events E v st = [Decode (n_pos st) (batch st) 0] \<and>
         (\<forall>E' v' st' i. BufStore i \<in> set (step_events E' v' (st' :: 'k gen_state)) \<longrightarrow>
            i = fst (llama_token_to_piece (E' :: ('m, 'v, 'k) env) v'
                  (llama_sampler_sample E' [Greedy]
                     (snd (llama_decode E' (ctx st') (batch st'))))
                  buf_size) \<and> 0 < i)"
proof (intro conjI impI allI)
  show step: "gen_step E v st =
           (True, st\<lparr>ctx := snd (llama_decode E (ctx st) (batch st)),
                     n_pos := n_pos st + int (length (batch st)),
                     batch := [tok],
                     events := events st @ [Decode (n_pos st) (batch st) 0]\<rparr>)"
    using assms by (rule gen_step_skip)
  show "step_events E v st = [Decode (n_pos st) (batch st) 0]"
    by (simp add: step_events_def step)
  show "gen_loop E v lim st =
      gen_loop E v lim
        (st\<lparr>ctx := snd (llama_decode E (ctx st) (batch st)),
            n_pos := n_pos st + int (length (batch st)),
            batch := [tok],
            events := events st @ [Decode (n_pos st) (batch st) 0]\<rparr>)"
    if "n_pos st + int (length (batch st)) < lim"
    using that step by (rule gen_loop_continue)
next
  fix E' :: "('m, 'v, 'k) env" and v' and st' :: "'k gen_state" and i
  assume "BufStore i \<in> set (step_events E' v' st')"
  then have r: "i = fst (llama_token_to_piece E' v'
                  (llama_sampler_sample E' [Greedy]
                     (snd (llama_decode E' (ctx st') (batch st'))))
                  buf_size) \<and> 0 < i"
    by (rule step_events_BufStore)
  from r show "i = fst (llama_token_to_piece E' v'
                  (llama_sampler_sample E' [Greedy]
                     (snd (llama_decode E' (ctx st') (batch st'))))
                  buf_size)" by simp
  from r show "0 < i" by simp
qed

theorem empty_piece_skipped_witness:
  "fst (llama_decode (stub_env [''a'', [], ''b''] 0 True) 1 [1]) = 0 \<and>
   2 = llama_sampler_sample (stub_env [''a'', [], ''b''] 0 True) [Greedy]
         (snd (llama_decode (stub_env [''a'', [], ''b''] 0 True) 1 [1])) \<and>
   \<not> llama_vocab_is_eog (stub_env [''a'', [], ''b''] 0 True) 7 2 \<and>
   fst (llama_token_to_piece (stub_env [''a'', [], ''b''] 0 True) 7 2 buf_size) \<le> 0 \<and>
   gen_step (stub_env [''a'', [], ''b''] 0 True) 7
       \<lparr>ctx = 1, n_pos = 58, batch = [1], result = ''a'', events = []\<rparr>
     = (True, \<lparr>ctx = 2, n_pos = 59, batch = [2], result = ''a'',
               events = [Decode 58 [1] 0]\<rparr>) \<and>
   fst (generateResponse (stub_env [''a'', [], ''b''] 0 True) ready ''hi'') = ''ab'' \<and>
   delivered (snd (snd (generateResponse (stub_env [''a'', [], ''b''] 0 True) ready ''hi'')))
     = [''a'', ''b'']"
proof -
  let ?E = "stub_env [''a'', [], ''b''] 0 True"
  let ?st = "\<lparr>ctx = 1 :: nat, n_pos = 58, batch = [1], result = ''a'', events = []\<rparr>"
  have h1: "fst (llama_decode ?E (ctx ?st) (batch ?st)) = 0" by (simp add: stub_env_def)
  have h2: "2 = llama_sampler_sample ?E [Greedy] (snd (llama_decode ?E (ctx ?st) (batch ?st)))"
    by (simp add: stub_env_def)
  have h3: "\<not> llama_vocab_is_eog ?E 7 2" by (simp add: stub_env_def)
  have h4: "fst (llama_token_to_piece ?E 7 2 buf_size) \<le> 0"
    by (simp add: stub_env_def buf_size_def)
  have g: "fst (generateResponse ?E ready ''hi'') = ''ab''" by code_simp
  have d: "delivered (snd (snd (generateResponse ?E ready ''hi''))) = [''a'', ''b'']"
    by code_simp
  have "gen_step ?E 7 ?st =
          (True, ?st\<lparr>ctx := snd (llama_decode ?E (ctx ?st) (batch ?st)),
                     n_pos := n_pos ?st + int (length (batch ?st)),
                     batch := [2],
                     events := events ?st @ [Decode (n_pos ?st) (batch ?st) 0]\<rparr>)"
    using empty_piece_skipped[OF h1 h2 h3 h4, of 122] by (elim conjE)
  also have "\<dots> = (True, \<lparr>ctx = 2, n_pos = 59, batch = [2], result = ''a'',
                          events = [Decode 58 [1] 0]\<rparr>)"
    by (simp add: stub_env_def)
  finally show ?thesis using h1 h2 h3 h4 g d by simp
qed

text \<open>
  The index of that store is not bounded by the array: for a fragment of exactly 128
  bytes token-to-piece returns 128, and \<^verbatim>\<open>buf[128] = 0\<close> is one past \<^verbatim>\<open>char buf[128]\<close>.
\<close>

lemma store_at_capacity:
  "buf_size = 128 \<and>
   BufStore 128 \<in> set (snd (snd (generateResponse
                     (stub_env [replicate 128 CHR ''x''] 0 True) ready ''hi'')))"
  by code_simp

end
